theory Spec2Isabelle
  imports Main "HOL-Library.AList"
begin

section \<open>Trace-to-graph transformation of the distributed pipeline (trace.py)\<close>

text \<open>
  The development embeds \<^verbatim>\<open>fairscale/experimental/nn/distributed_pipeline/trace.py\<close>:
  \<^verbatim>\<open>GraphCreator.get_module\<close>, the three loops of \<^verbatim>\<open>GraphCreator.create_graph\<close> and
  \<^verbatim>\<open>_call_trace\<close>. Python objects are values: a module object is its identity, a node of
  the traced graph is a value that holds its own argument nodes, as a \<^verbatim>\<open>torch.fx.Node\<close>
  holds references to the nodes it consumes. Every \<^verbatim>\<open>assert\<close>, failing lookup and failing
  attribute access of the source is a branch that returns an error.
\<close>

subsection \<open>Data\<close>

text \<open>
  The value of \<^verbatim>\<open>node.target\<close>: a string (the attribute path of a \<^verbatim>\<open>call_module\<close> node,
  the parameter name of a \<^verbatim>\<open>placeholder\<close>), the function \<^verbatim>\<open>operator.__getitem__\<close>, or any
  other callable, given by its name.
\<close>

datatype target = TargetStr string | OperatorGetitem | OtherCallable string

text \<open>
  A node has a unique name, an opcode \<^verbatim>\<open>op\<close>, a target and positional arguments. An argument
  is another node or an integer constant (the index of an element selection).
\<close>

datatype node = Node (name: string) (op: string) (target: target) (args: "arg list")
  and arg = ArgNode node | ArgInt int

text \<open>The identity of a Python object reachable from the traced root module.\<close>

type_synonym module = nat

text \<open>
  What \<^verbatim>\<open>create_graph\<close> reads from its tracer: the root module, the attributes of the
  objects reachable from it (\<^verbatim>\<open>getattr\<close>, \<open>None\<close> where Python raises AttributeError), the
  test \<^verbatim>\<open>isinstance(m, RemoteModule)\<close>, and the nodes of the traced graph in trace order.
\<close>

record tracer =
  root :: module
  getattr :: "module \<Rightarrow> string \<Rightarrow> module option"
  is_remote :: "module \<Rightarrow> bool"
  graph_nodes :: "node list"

text \<open>
  \<^verbatim>\<open>PipelineModulesGraph.DataSourceSpec\<close>, the values of \<^verbatim>\<open>node_to_data\<close>: an \<^verbatim>\<open>int\<close> (the
  position of a model input), a \<^verbatim>\<open>RemoteModule\<close> (its whole output), or a pair of a module
  and the second argument of the selection, kept as the source keeps it.
\<close>

datatype data =
    ExternalInput nat
  | WholeModuleOutput module
  | IndexedModuleOutput module arg

text \<open>
  The failures of the source, named after the structural error each one reports:
  \<^item> \<open>UnsupportedOperation\<close>: \<^verbatim>\<open>assert False\<close> (line 53);
  \<^item> \<open>UnknownInput\<close>: the ValueError of \<^verbatim>\<open>arg_names.index\<close> (line 49);
  \<^item> \<open>ModuleResolutionFailed\<close>: the AttributeError of \<^verbatim>\<open>get_module\<close> (lines 29-30);
  \<^item> \<open>NotARemoteModule\<close>: the assertion of line 40;
  \<^item> \<open>SelectionOnNonModule\<close>: the assertions of lines 44 and 46;
  \<^item> \<open>MixedOutputAccess\<close>: the assertions of lines 62 and 68;
  \<^item> \<open>KeyError\<close>: \<^verbatim>\<open>node_to_data[arg]\<close> for an argument that was never resolved
    (lines 58 and 75);
  \<^item> \<open>IndexError\<close>: \<^verbatim>\<open>node.args[0]\<close> or \<^verbatim>\<open>node.args[1]\<close> of a node with too few arguments;
  \<^item> \<open>TypeError\<close>: \<^verbatim>\<open>output_num + 1\<close> where the selection index is not an integer.
\<close>

datatype error =
    UnsupportedOperation
  | UnknownInput
  | ModuleResolutionFailed
  | NotARemoteModule
  | SelectionOnNonModule
  | MixedOutputAccess
  | KeyError
  | IndexError
  | TypeError

text \<open>A layer as \<^verbatim>\<open>create_graph\<close> hands it to \<^verbatim>\<open>add_layer\<close>.\<close>

record layer =
  lmodule :: module
  linputs :: "data list"
  num_outputs :: "int option"

type_synonym graph = "layer list"

text \<open>
  Modelled from the spec: \<^verbatim>\<open>PipelineModulesGraph.add_layer\<close> is imported from the package
  and is not part of the sources at hand. The graph is the sequence of the layers it was
  given, in the order of the calls (``invoked once per layer in trace order'').
\<close>

definition add_layer :: "graph \<Rightarrow> module \<Rightarrow> data list \<Rightarrow> int option \<Rightarrow> graph" where
  "add_layer g m inputs k = g @ [\<lparr>lmodule = m, linputs = inputs, num_outputs = k\<rparr>]"

subsection \<open>Loops that stop at the first error\<close>

fun foldE :: "('s \<Rightarrow> 'a \<Rightarrow> error + 's) \<Rightarrow> 's \<Rightarrow> 'a list \<Rightarrow> error + 's" where
  "foldE f s [] = Inr s"
| "foldE f s (x # xs) = (case f s x of Inl e \<Rightarrow> Inl e | Inr s' \<Rightarrow> foldE f s' xs)"

fun mapE :: "('a \<Rightarrow> error + 'b) \<Rightarrow> 'a list \<Rightarrow> error + 'b list" where
  "mapE f [] = Inr []"
| "mapE f (x # xs) =
     (case f x of Inl e \<Rightarrow> Inl e
      | Inr y \<Rightarrow> (case mapE f xs of Inl e \<Rightarrow> Inl e | Inr ys \<Rightarrow> Inr (y # ys)))"

subsection \<open>get_module\<close>

text \<open>\<^verbatim>\<open>str.split(".")\<close>: the pieces between the dots, empty pieces kept.\<close>

fun split_dot :: "string \<Rightarrow> string list" where
  "split_dot [] = [[]]"
| "split_dot (c # cs) =
     (if c = CHR ''.'' then [] # split_dot cs
      else (case split_dot cs of [] \<Rightarrow> [[c]] | w # ws \<Rightarrow> (c # w) # ws))"

text \<open>The loop \<^verbatim>\<open>for t in ...: module = getattr(module, t)\<close>.\<close>

fun walk_attrs :: "tracer \<Rightarrow> module \<Rightarrow> string list \<Rightarrow> error + module" where
  "walk_attrs T m [] = Inr m"
| "walk_attrs T m (t # ts) =
     (case getattr T m t of
        None \<Rightarrow> Inl ModuleResolutionFailed
      | Some m' \<Rightarrow> walk_attrs T m' ts)"

definition get_module :: "tracer \<Rightarrow> node \<Rightarrow> error + module option" where
  "get_module T n =
     (if op n \<noteq> ''call_module'' then Inr None
      else (case target n of
              TargetStr s \<Rightarrow>
                (case walk_attrs T (root T) (split_dot s) of
                   Inl e \<Rightarrow> Inl e
                 | Inr m \<Rightarrow> Inr (Some m))
            | _ \<Rightarrow> Inl ModuleResolutionFailed))"

subsection \<open>create_graph, first loop: the data source of every node\<close>

text \<open>\<^verbatim>\<open>list.index\<close>: the first position of the element, \<open>None\<close> for the ValueError.\<close>

fun index_of :: "'a list \<Rightarrow> 'a \<Rightarrow> nat option" where
  "index_of [] x = None"
| "index_of (y # ys) x =
     (if y = x then Some 0
      else (case index_of ys x of None \<Rightarrow> None | Some i \<Rightarrow> Some (Suc i)))"

text \<open>\<^verbatim>\<open>node_to_data.get(arg)\<close>: only a node can be a key of the dictionary.\<close>

fun lookup_arg :: "(node \<rightharpoonup> data) \<Rightarrow> arg \<Rightarrow> data option" where
  "lookup_arg nd (ArgNode n) = nd n"
| "lookup_arg nd (ArgInt i) = None"

text \<open>
  The state of the first loop: \<^verbatim>\<open>node_to_data\<close> and \<^verbatim>\<open>node_to_module\<close>. The second
  dictionary is iterated later, so it keeps the order of insertion.
\<close>

type_synonym resolution = "(node \<rightharpoonup> data) \<times> (node \<times> module) list"

text \<open>The body of the loop of lines 37-53, for one node.\<close>

definition resolve_node :: "tracer \<Rightarrow> string list \<Rightarrow> resolution \<Rightarrow> node \<Rightarrow> error + resolution" where
  "resolve_node T arg_names st n =
     (case st of (node_to_data, node_to_module) \<Rightarrow>
        if op n = ''call_module'' then
          (case get_module T n of
             Inl e \<Rightarrow> Inl e
           | Inr None \<Rightarrow> Inl NotARemoteModule
           | Inr (Some m) \<Rightarrow>
               if is_remote T m
               then Inr (node_to_data(n \<mapsto> WholeModuleOutput m), AList.update n m node_to_module)
               else Inl NotARemoteModule)
        else if target n = OperatorGetitem \<and> op n = ''call_function'' then
          (case args n of
             [] \<Rightarrow> Inl IndexError
           | a0 # rest \<Rightarrow>
               (case lookup_arg node_to_data a0 of
                  None \<Rightarrow> Inl SelectionOnNonModule
                | Some (WholeModuleOutput d) \<Rightarrow>
                    (case rest of
                       [] \<Rightarrow> Inl IndexError
                     | a1 # _ \<Rightarrow> Inr (node_to_data(n \<mapsto> IndexedModuleOutput d a1), node_to_module))
                | Some _ \<Rightarrow> Inl SelectionOnNonModule))
        else if op n = ''placeholder'' then
          (case (case target n of TargetStr s \<Rightarrow> index_of arg_names s | _ \<Rightarrow> None) of
             None \<Rightarrow> Inl UnknownInput
           | Some i \<Rightarrow> Inr (node_to_data(n \<mapsto> ExternalInput i), node_to_module))
        else if op n = ''output'' then Inr (node_to_data, node_to_module)
        else Inl UnsupportedOperation)"

definition resolve_nodes :: "tracer \<Rightarrow> string list \<Rightarrow> node list \<Rightarrow> error + resolution" where
  "resolve_nodes T arg_names ns = foldE (resolve_node T arg_names) (Map.empty, []) ns"

subsection \<open>create_graph, second loop: the number of outputs of every module\<close>

text \<open>
  \<^verbatim>\<open>module_to_num_outputs\<close> has three states for a module: no entry, the entry \<^verbatim>\<open>None\<close>,
  and a number.
\<close>

type_synonym arities = "module \<rightharpoonup> int option"

text \<open>The body of the inner loop of lines 57-71, for one argument.\<close>

definition infer_arg :: "(node \<rightharpoonup> data) \<Rightarrow> arities \<Rightarrow> arg \<Rightarrow> error + arities" where
  "infer_arg node_to_data module_to_num_outputs a =
     (case lookup_arg node_to_data a of
        None \<Rightarrow> Inl KeyError
      | Some (ExternalInput i) \<Rightarrow> Inr module_to_num_outputs
      | Some (WholeModuleOutput d) \<Rightarrow>
          (case module_to_num_outputs d of
             Some (Some k) \<Rightarrow> Inl MixedOutputAccess
           | _ \<Rightarrow> Inr (module_to_num_outputs(d \<mapsto> None)))
      | Some (IndexedModuleOutput m output_num) \<Rightarrow>
          (case module_to_num_outputs m of
             Some prev_value \<Rightarrow>
               (case prev_value of
                  None \<Rightarrow> Inl MixedOutputAccess
                | Some p \<Rightarrow>
                    (case output_num of
                       ArgInt k \<Rightarrow> Inr (module_to_num_outputs(m \<mapsto> Some (max p (k + 1))))
                     | ArgNode x \<Rightarrow> Inl TypeError))
           | None \<Rightarrow>
               (case output_num of
                  ArgInt k \<Rightarrow> Inr (module_to_num_outputs(m \<mapsto> Some (k + 1)))
                | ArgNode x \<Rightarrow> Inl TypeError)))"

definition infer_node :: "(node \<rightharpoonup> data) \<Rightarrow> arities \<Rightarrow> node \<times> module \<Rightarrow> error + arities" where
  "infer_node node_to_data mp e = foldE (infer_arg node_to_data) mp (args (fst e))"

definition infer_arities :: "(node \<rightharpoonup> data) \<Rightarrow> (node \<times> module) list \<Rightarrow> error + arities" where
  "infer_arities node_to_data node_to_module =
     foldE (infer_node node_to_data) Map.empty node_to_module"

subsection \<open>create_graph, third loop: the layers\<close>

text \<open>\<^verbatim>\<open>node_to_data[arg]\<close> and \<^verbatim>\<open>module_to_num_outputs.get(module)\<close>.\<close>

definition data_of :: "(node \<rightharpoonup> data) \<Rightarrow> arg \<Rightarrow> error + data" where
  "data_of node_to_data a =
     (case lookup_arg node_to_data a of None \<Rightarrow> Inl KeyError | Some d \<Rightarrow> Inr d)"

definition get_arity :: "arities \<Rightarrow> module \<Rightarrow> int option" where
  "get_arity mp m = (case mp m of None \<Rightarrow> None | Some v \<Rightarrow> v)"

definition emit_layer :: "(node \<rightharpoonup> data) \<Rightarrow> arities \<Rightarrow> graph \<Rightarrow> node \<times> module \<Rightarrow> error + graph" where
  "emit_layer node_to_data mp g e =
     (case mapE (data_of node_to_data) (args (fst e)) of
        Inl err \<Rightarrow> Inl err
      | Inr inputs \<Rightarrow> Inr (add_layer g (snd e) inputs (get_arity mp (snd e))))"

definition assemble :: "(node \<rightharpoonup> data) \<Rightarrow> arities \<Rightarrow> (node \<times> module) list \<Rightarrow> error + graph" where
  "assemble node_to_data mp node_to_module = foldE (emit_layer node_to_data mp) [] node_to_module"

definition create_graph :: "tracer \<Rightarrow> string list \<Rightarrow> error + graph" where
  "create_graph T arg_names =
     (case resolve_nodes T arg_names (graph_nodes T) of
        Inl e \<Rightarrow> Inl e
      | Inr (node_to_data, node_to_module) \<Rightarrow>
          (case infer_arities node_to_data node_to_module of
             Inl e \<Rightarrow> Inl e
           | Inr mp \<Rightarrow> assemble node_to_data mp node_to_module))"

subsection \<open>_call_trace\<close>

text \<open>
  The two attributes of the class \<^verbatim>\<open>RemoteModule\<close> that \<^verbatim>\<open>_call_trace\<close> replaces; \<open>'f\<close> is
  the type of a method.
\<close>

record 'f remote_module_class =
  named_modules :: 'f
  named_children :: 'f

text \<open>
  \<^verbatim>\<open>tracer.trace(module)\<close> is a parameter: it runs on the class as it finds it, returns a
  graph or raises, and may leave the class changed. \<open>nn_modules\<close> and \<open>nn_children\<close> are
  \<^verbatim>\<open>nn.Module.named_modules\<close> and \<^verbatim>\<open>nn.Module.named_children\<close>. The \<^verbatim>\<open>finally\<close> block runs on
  both outcomes.
\<close>

definition call_trace ::
  "'f \<Rightarrow> 'f \<Rightarrow> ('f remote_module_class \<Rightarrow> ('e + 'g) \<times> 'f remote_module_class) \<Rightarrow>
   'f remote_module_class \<Rightarrow> ('e + 'g) \<times> 'f remote_module_class" where
  "call_trace nn_modules nn_children trace cls =
     (let org_named_modules = named_modules cls;
          org_named_children = named_children cls;
          cls1 = cls\<lparr>named_modules := nn_modules\<rparr>;
          cls2 = cls1\<lparr>named_children := nn_children\<rparr>;
          (r, cls3) = trace cls2;
          cls4 = cls3\<lparr>named_modules := org_named_modules\<rparr>;
          cls5 = cls4\<lparr>named_children := org_named_children\<rparr>
      in (r, cls5))"

subsection \<open>Vocabulary of the properties\<close>

text \<open>
  The four kinds of node that the first loop accepts, by the tests it makes: a module call,
  an element selection, a placeholder, the output.
\<close>

definition is_module_call :: "node \<Rightarrow> bool" where
  "is_module_call n \<longleftrightarrow> op n = ''call_module''"

definition is_select_element :: "node \<Rightarrow> bool" where
  "is_select_element n \<longleftrightarrow> target n = OperatorGetitem \<and> op n = ''call_function''"

definition supported_kind :: "node \<Rightarrow> bool" where
  "supported_kind n \<longleftrightarrow>
     op n = ''call_module'' \<or> (target n = OperatorGetitem \<and> op n = ''call_function'') \<or>
     op n = ''placeholder'' \<or> op n = ''output''"

text \<open>The arguments of the module calls of a trace, in trace order.\<close>

definition module_call_args :: "node list \<Rightarrow> arg list" where
  "module_call_args ns = concat (map args (filter is_module_call ns))"

text \<open>
  The indices at which the result of module \<open>m\<close> is selected among a list of arguments,
  and whether its result is used whole there.
\<close>

definition selected_index :: "(node \<rightharpoonup> data) \<Rightarrow> module \<Rightarrow> arg \<Rightarrow> int list" where
  "selected_index nd m a =
     (case lookup_arg nd a of
        Some (IndexedModuleOutput m' (ArgInt k)) \<Rightarrow> if m' = m then [k] else []
      | _ \<Rightarrow> [])"

definition selected_indices :: "(node \<rightharpoonup> data) \<Rightarrow> module \<Rightarrow> arg list \<Rightarrow> int list" where
  "selected_indices nd m as = concat (map (selected_index nd m) as)"

definition used_whole :: "(node \<rightharpoonup> data) \<Rightarrow> module \<Rightarrow> arg list \<Rightarrow> bool" where
  "used_whole nd m as = list_ex (\<lambda>a. lookup_arg nd a = Some (WholeModuleOutput m)) as"

subsection \<open>Example traces\<close>

text \<open>
  A root module with three remote children \<open>a\<close>, \<open>b\<close> and \<open>c\<close> (the objects 1, 2 and 3), and
  nodes to build traces from.
\<close>

definition ex_tracer :: "node list \<Rightarrow> tracer" where
  "ex_tracer ns =
     \<lparr>root = 0,
      getattr = (\<lambda>m t. if m = 0 \<and> t = ''a'' then Some 1
                        else if m = 0 \<and> t = ''b'' then Some 2
                        else if m = 0 \<and> t = ''c'' then Some 3 else None),
      is_remote = (\<lambda>m. m = 1 \<or> m = 2 \<or> m = 3),
      graph_nodes = ns\<rparr>"

definition ex_x :: node where
  "ex_x = Node ''x'' ''placeholder'' (TargetStr ''x'') []"

definition ex_y :: node where
  "ex_y = Node ''y'' ''placeholder'' (TargetStr ''y'') []"

definition ex_a :: node where
  "ex_a = Node ''a'' ''call_module'' (TargetStr ''a'') [ArgNode ex_x]"

definition ex_relu :: node where
  "ex_relu = Node ''relu'' ''call_function'' (OtherCallable ''relu'') [ArgNode ex_x]"

definition ex_s0 :: node where
  "ex_s0 = Node ''getitem'' ''call_function'' OperatorGetitem [ArgNode ex_a, ArgInt 0]"

definition ex_sel_x :: node where
  "ex_sel_x = Node ''getitem'' ''call_function'' OperatorGetitem [ArgNode ex_x, ArgInt 0]"

definition ex_b_whole :: node where
  "ex_b_whole = Node ''b'' ''call_module'' (TargetStr ''b'') [ArgNode ex_a]"

definition ex_out :: "node \<Rightarrow> node" where
  "ex_out n = Node ''output'' ''output'' (TargetStr ''output'') [ArgNode n]"

lemmas ex_defs = ex_tracer_def ex_x_def ex_y_def ex_a_def ex_relu_def
  ex_s0_def ex_sel_x_def ex_b_whole_def ex_out_def

lemmas run_defs = create_graph_def resolve_nodes_def resolve_node_def get_module_def
  infer_arities_def infer_node_def infer_arg_def assemble_def emit_layer_def data_of_def
  get_arity_def add_layer_def

section \<open>Properties\<close>

subsection \<open>Loops and lookups\<close>

lemma foldE_append:
  "foldE f s (xs @ ys) = (case foldE f s xs of Inl e \<Rightarrow> Inl e | Inr s' \<Rightarrow> foldE f s' ys)"
  by (induction xs arbitrary: s) (auto split: sum.splits)

lemma foldE_snoc:
  "foldE f s (xs @ [x]) = (case foldE f s xs of Inl e \<Rightarrow> Inl e | Inr s' \<Rightarrow> f s' x)"
  by (simp add: foldE_append split: sum.splits)

lemma foldE_Inl_mem:
  "x \<in> set xs \<Longrightarrow> \<forall>s. \<exists>e. f s x = Inl e \<Longrightarrow> \<exists>e. foldE f s xs = Inl e"
proof (induction xs arbitrary: s)
  case Nil
  then show ?case by simp
next
  case (Cons y ys)
  show ?case
  proof (cases "f s y")
    case (Inl e)
    then show ?thesis by simp
  next
    case (Inr s')
    with Cons.prems(2) have "y \<noteq> x" by (metis sum.distinct(1))
    with Cons.prems have "x \<in> set ys" by simp
    from Cons.IH [OF this Cons.prems(2)] Inr show ?thesis by simp
  qed
qed

lemma foldE_concat:
  "foldE (\<lambda>s x. foldE f s (h x)) s xs = foldE f s (concat (map h xs))"
  by (induction xs arbitrary: s) (auto simp: foldE_append split: sum.splits)

lemma index_of_None: "index_of xs x = None \<longleftrightarrow> x \<notin> set xs"
  by (induction xs) (auto split: option.splits)

lemma index_of_first:
  "i < length xs \<Longrightarrow> xs ! i = x \<Longrightarrow> \<forall>j<i. xs ! j \<noteq> x \<Longrightarrow> index_of xs x = Some i"
proof (induction xs arbitrary: i)
  case Nil
  then show ?case by simp
next
  case (Cons y ys)
  show ?case
  proof (cases i)
    case 0
    with Cons.prems show ?thesis by simp
  next
    case (Suc k)
    with Cons.prems have "y \<noteq> x" by auto
    moreover have "index_of ys x = Some k"
      using Cons.prems Suc by (intro Cons.IH) auto
    ultimately show ?thesis using Suc by simp
  qed
qed

subsection \<open>The first loop\<close>

text \<open>The error of the first node that fails is the error of the whole call.\<close>

lemma create_graph_first_error:
  assumes "graph_nodes T = pre @ n # post"
    and "resolve_nodes T an pre = Inr st"
    and "resolve_node T an st n = Inl e"
  shows "create_graph T an = Inl e"
  using assms by (simp add: create_graph_def resolve_nodes_def foldE_append)

lemma resolve_node_unsupported:
  "\<not> supported_kind n \<Longrightarrow> resolve_node T an st n = Inl UnsupportedOperation"
  by (cases st) (auto simp: supported_kind_def resolve_node_def)

text \<open>
  C4. A placeholder whose name stands in the list of input names resolves to
  \<open>ExternalInput i\<close>, where \<open>i\<close> is the first position of the name in the list (what
  \<^verbatim>\<open>list.index\<close> returns). A placeholder whose name is not in the list fails with
  \<open>UnknownInput\<close>, and so does \<open>create_graph\<close> on every trace in which the nodes before the
  placeholder resolve.
\<close>

theorem placeholder_resolution:
  assumes "op n = ''placeholder''" and "target n = TargetStr x"
  shows "(i < length arg_names \<and> arg_names ! i = x \<and> (\<forall>j<i. arg_names ! j \<noteq> x) \<longrightarrow>
           resolve_node T arg_names (nd, nm) n = Inr (nd(n \<mapsto> ExternalInput i), nm)) \<and>
         (x \<notin> set arg_names \<longrightarrow>
           resolve_node T arg_names (nd, nm) n = Inl UnknownInput \<and>
           (graph_nodes T = pre @ n # post \<and> resolve_nodes T arg_names pre = Inr (nd, nm) \<longrightarrow>
              create_graph T arg_names = Inl UnknownInput))"
proof (intro conjI impI)
  assume "i < length arg_names \<and> arg_names ! i = x \<and> (\<forall>j<i. arg_names ! j \<noteq> x)"
  then have "index_of arg_names x = Some i" by (simp add: index_of_first)
  with assms show "resolve_node T arg_names (nd, nm) n = Inr (nd(n \<mapsto> ExternalInput i), nm)"
    by (simp add: resolve_node_def)
next
  assume "x \<notin> set arg_names"
  then have "index_of arg_names x = None" by (simp add: index_of_None)
  with assms show *: "resolve_node T arg_names (nd, nm) n = Inl UnknownInput"
    by (simp add: resolve_node_def)
  assume "graph_nodes T = pre @ n # post \<and> resolve_nodes T arg_names pre = Inr (nd, nm)"
  with * show "create_graph T arg_names = Inl UnknownInput"
    by (simp add: create_graph_first_error)
qed

theorem placeholder_resolution_witness:
  "op ex_x = ''placeholder'' \<and> target ex_x = TargetStr ''x'' \<and>
   resolve_node (ex_tracer [ex_x]) [''y'', ''x''] (Map.empty, []) ex_x =
     Inr (Map.empty(ex_x \<mapsto> ExternalInput 1), []) \<and>
   ''x'' \<notin> set [''y''] \<and>
   create_graph (ex_tracer [ex_x]) [''y''] = Inl UnknownInput"
proof -
  have h1: "op ex_x = ''placeholder''" and h2: "target ex_x = TargetStr ''x''"
    by (simp_all add: ex_x_def)
  have pre: "graph_nodes (ex_tracer [ex_x]) = [] @ ex_x # [] \<and>
             resolve_nodes (ex_tracer [ex_x]) [''y''] [] = Inr (Map.empty, [])"
    by (simp add: ex_tracer_def resolve_nodes_def)
  have pos: "(1::nat) < length [''y'', ''x''] \<and> [''y'', ''x''] ! 1 = ''x'' \<and>
             (\<forall>j<1. [''y'', ''x''] ! j \<noteq> ''x'')"
    by simp
  have absent: "''x'' \<notin> set [''y'']" by simp
  from placeholder_resolution [OF h1 h2, where i = 1 and arg_names = "[''y'', ''x'']"] pos
  have a: "resolve_node (ex_tracer [ex_x]) [''y'', ''x''] (Map.empty, []) ex_x =
     Inr (Map.empty(ex_x \<mapsto> ExternalInput 1), [])"
    by blast
  from placeholder_resolution [OF h1 h2, where arg_names = "[''y'']" and T = "ex_tracer [ex_x]"
      and pre = "[]" and post = "[]" and nd = Map.empty and nm = "[]"] absent pre
  have b: "create_graph (ex_tracer [ex_x]) [''y''] = Inl UnknownInput"
    by blast
  from h1 h2 a absent b show ?thesis by blast
qed

text \<open>
  C7, as the code has it. A trace with a node of none of the four kinds never yields a graph:
  \<open>create_graph\<close> returns an error. The error is \<open>UnsupportedOperation\<close> when the nodes before
  that node resolve; a node that fails earlier raises its own error first.
\<close>

theorem unsupported_node_no_graph:
  assumes "n \<in> set (graph_nodes T)" and "\<not> supported_kind n"
  shows "(\<exists>e. create_graph T an = Inl e) \<and>
         (\<forall>pre post st. graph_nodes T = pre @ n # post \<and> resolve_nodes T an pre = Inr st \<longrightarrow>
            create_graph T an = Inl UnsupportedOperation)"
proof
  have "\<exists>e. foldE (resolve_node T an) (Map.empty, []) (graph_nodes T) = Inl e"
    using assms by (intro foldE_Inl_mem) (auto simp: resolve_node_unsupported)
  then show "\<exists>e. create_graph T an = Inl e"
    by (auto simp: create_graph_def resolve_nodes_def)
  show "\<forall>pre post st. graph_nodes T = pre @ n # post \<and> resolve_nodes T an pre = Inr st \<longrightarrow>
            create_graph T an = Inl UnsupportedOperation"
    using assms(2) by (auto intro: create_graph_first_error simp: resolve_node_unsupported)
qed

theorem unsupported_node_no_graph_witness:
  "ex_relu \<in> set (graph_nodes (ex_tracer [ex_x, ex_relu])) \<and> \<not> supported_kind ex_relu \<and>
   create_graph (ex_tracer [ex_x, ex_relu]) [''x''] = Inl UnsupportedOperation"
proof -
  have h1: "ex_relu \<in> set (graph_nodes (ex_tracer [ex_x, ex_relu]))"
    by (simp add: ex_tracer_def)
  have h2: "\<not> supported_kind ex_relu"
    by (simp add: supported_kind_def ex_relu_def)
  have pre: "graph_nodes (ex_tracer [ex_x, ex_relu]) = [ex_x] @ ex_relu # [] \<and>
             resolve_nodes (ex_tracer [ex_x, ex_relu]) [''x''] [ex_x] =
               Inr (Map.empty(ex_x \<mapsto> ExternalInput 0), [])"
    by (simp add: ex_tracer_def resolve_nodes_def resolve_node_def ex_x_def)
  from unsupported_node_no_graph [OF h1 h2, of "[''x'']"] pre
  have "create_graph (ex_tracer [ex_x, ex_relu]) [''x''] = Inl UnsupportedOperation"
    by blast
  with h1 h2 show ?thesis by blast
qed

text \<open>
  C7, as the claim states it, fails on the trace of a placeholder \<open>y\<close> followed by a call of
  the function \<open>relu\<close>, with the input names \<open>[x]\<close>: the placeholder is resolved first and
  \<^verbatim>\<open>arg_names.index\<close> raises, so the error is \<open>UnknownInput\<close>.
\<close>

theorem unsupported_node_counterexample:
  "ex_relu \<in> set (graph_nodes (ex_tracer [ex_y, ex_relu])) \<and> \<not> supported_kind ex_relu \<and>
   create_graph (ex_tracer [ex_y, ex_relu]) [''x''] = Inl UnknownInput \<and>
   create_graph (ex_tracer [ex_y, ex_relu]) [''x''] \<noteq> Inl UnsupportedOperation"
  by (simp add: ex_defs run_defs supported_kind_def)

subsection \<open>The first loop, continued\<close>

lemma resolve_node_cases:
  assumes "resolve_node T an (nd, nm) n = Inr (nd', nm')"
  shows "(is_module_call n \<and>
            (\<exists>m. get_module T n = Inr (Some m) \<and> is_remote T m \<and>
                 nd' = nd(n \<mapsto> WholeModuleOutput m) \<and> nm' = AList.update n m nm)) \<or>
         (\<not> is_module_call n \<and> is_select_element n \<and> nm' = nm \<and>
            (\<exists>a0 a1 rest m. args n = a0 # a1 # rest \<and>
                 lookup_arg nd a0 = Some (WholeModuleOutput m) \<and>
                 nd' = nd(n \<mapsto> IndexedModuleOutput m a1))) \<or>
         (\<not> is_module_call n \<and> \<not> is_select_element n \<and> nm' = nm \<and>
            ((\<exists>i. nd' = nd(n \<mapsto> ExternalInput i)) \<or> nd' = nd))"
proof (cases "op n = ''call_module''")
  case True
  with assms show ?thesis
    by (auto simp: resolve_node_def is_module_call_def split: sum.splits option.splits if_splits)
next
  case nc: False
  show ?thesis
  proof (cases "target n = OperatorGetitem \<and> op n = ''call_function''")
    case True
    with nc assms show ?thesis
      by (auto simp: resolve_node_def is_module_call_def is_select_element_def
          split: list.splits option.splits data.splits)
  next
    case False
    with nc assms show ?thesis
      by (auto simp: resolve_node_def is_module_call_def is_select_element_def
          split: option.splits if_splits)
  qed
qed

lemma foldE_resolve_Cons:
  assumes "foldE (resolve_node T an) (nd, nm) (n # ns) = Inr (nd', nm')"
  obtains nd1 nm1 where "resolve_node T an (nd, nm) n = Inr (nd1, nm1)"
    and "foldE (resolve_node T an) (nd1, nm1) ns = Inr (nd', nm')"
  using assms by (auto split: sum.splits)

lemma set_update_subset: "set (AList.update k v al) \<subseteq> insert (k, v) (set al)"
  by (induction al) auto

lemma resolve_node_keys:
  assumes "resolve_node T an (nd, nm) n = Inr (nd', nm')"
  shows "fst ` set nm' = fst ` set nm \<union> (if is_module_call n then {n} else {})"
  using resolve_node_cases [OF assms]
  by (elim disjE conjE exE) (simp_all add: AList.dom_update)

lemma resolve_keys:
  "foldE (resolve_node T an) (nd, nm) ns = Inr (nd', nm') \<Longrightarrow>
     fst ` set nm' = fst ` set nm \<union> {n \<in> set ns. is_module_call n}"
proof (induction ns arbitrary: nd nm)
  case Nil
  then show ?case by simp
next
  case (Cons n ns)
  from Cons.prems obtain nd1 nm1 where
    step: "resolve_node T an (nd, nm) n = Inr (nd1, nm1)" and
    rest: "foldE (resolve_node T an) (nd1, nm1) ns = Inr (nd', nm')"
    by (rule foldE_resolve_Cons)
  from Cons.IH [OF rest] resolve_node_keys [OF step] show ?case by auto
qed

text \<open>Every recorded module is the one that \<open>get_module\<close> finds for its node.\<close>

lemma resolve_modules:
  "foldE (resolve_node T an) (nd, nm) ns = Inr (nd', nm') \<Longrightarrow>
   \<forall>e\<in>set nm. get_module T (fst e) = Inr (Some (snd e)) \<Longrightarrow>
   \<forall>e\<in>set nm'. get_module T (fst e) = Inr (Some (snd e))"
proof (induction ns arbitrary: nd nm)
  case Nil
  then show ?case by simp
next
  case (Cons n ns)
  from Cons.prems(1) obtain nd1 nm1 where
    step: "resolve_node T an (nd, nm) n = Inr (nd1, nm1)" and
    rest: "foldE (resolve_node T an) (nd1, nm1) ns = Inr (nd', nm')"
    by (rule foldE_resolve_Cons)
  from resolve_node_cases [OF step] consider
    (call) m where "get_module T n = Inr (Some m)" and "nm1 = AList.update n m nm"
    | (other) "nm1 = nm"
    by blast
  then have "\<forall>e\<in>set nm1. get_module T (fst e) = Inr (Some (snd e))"
  proof cases
    case call
    have "set nm1 \<subseteq> insert (n, m) (set nm)"
      unfolding call(2) by (rule set_update_subset)
    with call(1) Cons.prems(2) show ?thesis by auto
  next
    case other
    with Cons.prems(2) show ?thesis by simp
  qed
  from Cons.IH [OF rest this] show ?case .
qed

text \<open>Distinct nodes are recorded in trace order.\<close>

lemma resolve_order:
  "foldE (resolve_node T an) (nd, nm) ns = Inr (nd', nm') \<Longrightarrow> distinct ns \<Longrightarrow>
   set ns \<inter> fst ` set nm = {} \<Longrightarrow>
   map fst nm' = map fst nm @ filter is_module_call ns"
proof (induction ns arbitrary: nd nm)
  case Nil
  then show ?case by simp
next
  case (Cons n ns)
  from Cons.prems(1) obtain nd1 nm1 where
    step: "resolve_node T an (nd, nm) n = Inr (nd1, nm1)" and
    rest: "foldE (resolve_node T an) (nd1, nm1) ns = Inr (nd', nm')"
    by (rule foldE_resolve_Cons)
  from Cons.prems have fresh: "n \<notin> fst ` set nm" and dist: "distinct ns" and "n \<notin> set ns"
    and disj: "set ns \<inter> fst ` set nm = {}"
    by auto
  have keys1: "map fst nm1 = map fst nm @ (if is_module_call n then [n] else [])"
    using resolve_node_cases [OF step] fresh
    by (elim disjE conjE exE) (simp_all add: AList.update_keys)
  have "fst ` set nm1 \<subseteq> insert n (fst ` set nm)"
    using resolve_node_keys [OF step] by (auto split: if_splits)
  with disj \<open>n \<notin> set ns\<close> have "set ns \<inter> fst ` set nm1 = {}" by blast
  from Cons.IH [OF rest dist this] keys1 show ?case by simp
qed

text \<open>Without an element selection in the trace, no node resolves to an indexed output.\<close>

lemma resolve_no_indexed:
  "foldE (resolve_node T an) (nd, nm) ns = Inr (nd', nm') \<Longrightarrow>
   \<forall>n\<in>set ns. \<not> is_select_element n \<Longrightarrow>
   \<forall>n m x. nd n \<noteq> Some (IndexedModuleOutput m x) \<Longrightarrow>
   \<forall>n m x. nd' n \<noteq> Some (IndexedModuleOutput m x)"
proof (induction ns arbitrary: nd nm)
  case Nil
  then show ?case by simp
next
  case (Cons n ns)
  from Cons.prems(1) obtain nd1 nm1 where
    step: "resolve_node T an (nd, nm) n = Inr (nd1, nm1)" and
    rest: "foldE (resolve_node T an) (nd1, nm1) ns = Inr (nd', nm')"
    by (rule foldE_resolve_Cons)
  from Cons.prems(2) have nsel: "\<not> is_select_element n" and tl: "\<forall>n\<in>set ns. \<not> is_select_element n"
    by auto
  have "\<forall>k m x. nd1 k \<noteq> Some (IndexedModuleOutput m x)"
    using resolve_node_cases [OF step] nsel Cons.prems(3)
    by (elim disjE conjE exE) auto
  from Cons.IH [OF rest tl this] show ?case .
qed

subsection \<open>The second loop\<close>

lemma selected_indices_simps [simp]:
  "selected_indices nd m [] = []"
  "selected_indices nd m (as @ bs) = selected_indices nd m as @ selected_indices nd m bs"
  "selected_indices nd m [a] = selected_index nd m a"
  by (simp_all add: selected_indices_def)

lemma used_whole_simps [simp]:
  "used_whole nd m [] = False"
  "used_whole nd m (as @ bs) = (used_whole nd m as \<or> used_whole nd m bs)"
  "used_whole nd m [a] = (lookup_arg nd a = Some (WholeModuleOutput m))"
  by (auto simp: used_whole_def list_ex_iff)

lemma set_selected_indices:
  "set (selected_indices nd m as) =
     {k. \<exists>a\<in>set as. lookup_arg nd a = Some (IndexedModuleOutput m (ArgInt k))}"
  by (auto simp: selected_indices_def selected_index_def
      split: option.splits data.splits arg.splits if_splits)

lemma used_whole_iff:
  "used_whole nd m as \<longleftrightarrow> (\<exists>a\<in>set as. lookup_arg nd a = Some (WholeModuleOutput m))"
  by (simp add: used_whole_def list_ex_iff)

lemma Max_insert_plus:
  "finite J \<Longrightarrow> J \<noteq> {} \<Longrightarrow> Max (insert k J) + (1::int) = max (Max J + 1) (k + 1)"
proof -
  assume "finite J" "J \<noteq> {}"
  then have "Max (insert k J) = max k (Max J)" by (rule Max_insert)
  then show ?thesis by (simp add: max_def)
qed

lemma infer_arities_flat:
  "infer_arities nd nm = foldE (infer_arg nd) Map.empty (concat (map (\<lambda>e. args (fst e)) nm))"
proof -
  have "infer_node nd = (\<lambda>s x. foldE (infer_arg nd) s (args (fst x)))"
    by (intro ext) (simp add: infer_node_def)
  then show ?thesis
    using foldE_concat [of "infer_arg nd" "\<lambda>e. args (fst e)" Map.empty nm]
    by (simp add: infer_arities_def)
qed

lemma set_call_args:
  assumes "resolve_nodes T an ns = Inr (nd, nm)"
  shows "set (concat (map (\<lambda>e. args (fst e)) nm)) = set (module_call_args ns)"
proof -
  have "fst ` set nm = {n \<in> set ns. is_module_call n}"
    using resolve_keys [of T an Map.empty "[]" ns nd nm] assms by (simp add: resolve_nodes_def)
  moreover have "(\<Union>e\<in>set nm. set (args (fst e))) = (\<Union>n\<in>fst ` set nm. set (args n))"
    by simp
  ultimately have "(\<Union>e\<in>set nm. set (args (fst e))) =
      (\<Union>n\<in>{n \<in> set ns. is_module_call n}. set (args n))"
    by simp
  then show ?thesis by (simp add: module_call_args_def)
qed

text \<open>What the second loop has recorded for a module after a list of arguments.\<close>

lemma infer_args_char:
  "foldE (infer_arg nd) Map.empty as = Inr mp \<Longrightarrow>
     (used_whole nd m as \<longrightarrow> selected_indices nd m as = [] \<and> mp m = Some None) \<and>
     (\<not> used_whole nd m as \<and> selected_indices nd m as \<noteq> [] \<longrightarrow>
        mp m = Some (Some (Max (set (selected_indices nd m as)) + 1))) \<and>
     (\<not> used_whole nd m as \<and> selected_indices nd m as = [] \<longrightarrow> mp m = None)"
proof (induction as arbitrary: mp rule: rev_induct)
  case Nil
  then show ?case by auto
next
  case (snoc a as)
  from snoc.prems obtain mp' where
    pre: "foldE (infer_arg nd) Map.empty as = Inr mp'" and step: "infer_arg nd mp' a = Inr mp"
    by (auto simp: foldE_snoc split: sum.splits)
  note IH = snoc.IH [OF pre]
  show ?case
  proof (cases "lookup_arg nd a")
    case None
    with step show ?thesis by (simp add: infer_arg_def)
  next
    case (Some d)
    show ?thesis
    proof (cases d)
      case (ExternalInput i)
      with Some step have "mp = mp'" by (simp add: infer_arg_def)
      with IH Some ExternalInput show ?thesis by (simp add: selected_index_def)
    next
      case (WholeModuleOutput d')
      with Some step have mp: "mp = mp'(d' \<mapsto> None)" and ok: "\<forall>k. mp' d' \<noteq> Some (Some k)"
        by (auto simp: infer_arg_def split: option.splits)
      show ?thesis
      proof (cases "d' = m")
        case True
        with IH ok have "selected_indices nd m as = []" by auto
        with True mp Some WholeModuleOutput show ?thesis by (simp add: selected_index_def)
      next
        case False
        with IH mp Some WholeModuleOutput show ?thesis by (simp add: selected_index_def)
      qed
    next
      case (IndexedModuleOutput m' out)
      with Some step obtain k where out: "out = ArgInt k"
        by (cases out) (auto simp: infer_arg_def split: option.splits)
      show ?thesis
      proof (cases "m' = m")
        case False
        with Some step IndexedModuleOutput out have "mp m = mp' m"
          by (auto simp: infer_arg_def split: option.splits)
        with IH False Some IndexedModuleOutput out show ?thesis by (simp add: selected_index_def)
      next
        case True
        have sel: "selected_index nd m a = [k]"
          using Some IndexedModuleOutput out True by (simp add: selected_index_def)
        have nw: "lookup_arg nd a \<noteq> Some (WholeModuleOutput m)"
          using Some IndexedModuleOutput by simp
        from Some step IndexedModuleOutput out True have notNone: "mp' m \<noteq> Some None"
          by (auto simp: infer_arg_def split: option.splits)
        with IH have nwas: "\<not> used_whole nd m as" by auto
        show ?thesis
        proof (cases "selected_indices nd m as = []")
          case True
          with IH nwas have "mp' m = None" by simp
          with Some step IndexedModuleOutput out \<open>m' = m\<close> have "mp m = Some (Some (k + 1))"
            by (auto simp: infer_arg_def)
          with True sel nw nwas show ?thesis by simp
        next
          case False
          with IH nwas have "mp' m = Some (Some (Max (set (selected_indices nd m as)) + 1))" by simp
          with Some step IndexedModuleOutput out \<open>m' = m\<close>
          have "mp m = Some (Some (max (Max (set (selected_indices nd m as)) + 1) (k + 1)))"
            by (auto simp: infer_arg_def)
          moreover have "Max (insert k (set (selected_indices nd m as))) + 1 =
                         max (Max (set (selected_indices nd m as)) + 1) (k + 1)"
            using False by (intro Max_insert_plus) auto
          ultimately show ?thesis using sel nw nwas by simp
        qed
      qed
    qed
  qed
qed

text \<open>
  The same for the module calls of a trace: what is recorded depends on the set of their
  arguments only.
\<close>

lemma infer_arities_char:
  assumes pass1: "resolve_nodes T an ns = Inr (nd, nm)" and pass2: "infer_arities nd nm = Inr mp"
  shows "(used_whole nd m (module_call_args ns) \<longrightarrow>
            set (selected_indices nd m (module_call_args ns)) = {} \<and> mp m = Some None) \<and>
         (\<not> used_whole nd m (module_call_args ns) \<and>
            set (selected_indices nd m (module_call_args ns)) \<noteq> {} \<longrightarrow>
            mp m = Some (Some (Max (set (selected_indices nd m (module_call_args ns))) + 1))) \<and>
         (\<not> used_whole nd m (module_call_args ns) \<and>
            set (selected_indices nd m (module_call_args ns)) = {} \<longrightarrow> mp m = None)"
proof -
  let ?as = "concat (map (\<lambda>e. args (fst e)) nm)"
  have eq: "set ?as = set (module_call_args ns)" using pass1 by (rule set_call_args)
  have w: "used_whole nd m ?as = used_whole nd m (module_call_args ns)"
    by (simp only: used_whole_iff eq)
  have s: "set (selected_indices nd m ?as) = set (selected_indices nd m (module_call_args ns))"
    by (simp only: set_selected_indices eq)
  have "foldE (infer_arg nd) Map.empty ?as = Inr mp"
    using pass2 by (simp only: infer_arities_flat)
  from infer_args_char [OF this, of m] show ?thesis
    unfolding w s [symmetric] by (simp only: set_empty)
qed

text \<open>With arguments that all resolve, and integer indices, the second loop fails in one way only.\<close>

lemma infer_arg_error:
  assumes "infer_arg nd mp a = Inl e"
    and "lookup_arg nd a \<noteq> None"
    and "\<forall>m x. lookup_arg nd a \<noteq> Some (IndexedModuleOutput m (ArgNode x))"
  shows "e = MixedOutputAccess"
proof -
  from assms(2) obtain d where d: "lookup_arg nd a = Some d" by auto
  show ?thesis
  proof (cases d)
    case (ExternalInput i)
    with d assms(1) show ?thesis by (simp add: infer_arg_def)
  next
    case (WholeModuleOutput m)
    with d assms(1) show ?thesis by (auto simp: infer_arg_def split: option.splits)
  next
    case (IndexedModuleOutput m out)
    with d assms(3) obtain k where "out = ArgInt k" by (cases out) auto
    with IndexedModuleOutput d assms(1) show ?thesis
      by (auto simp: infer_arg_def split: option.splits)
  qed
qed

lemma infer_args_error:
  "foldE (infer_arg nd) mp as = Inl e \<Longrightarrow>
   \<forall>a\<in>set as. lookup_arg nd a \<noteq> None \<and>
      (\<forall>m x. lookup_arg nd a \<noteq> Some (IndexedModuleOutput m (ArgNode x))) \<Longrightarrow>
   e = MixedOutputAccess"
proof (induction as arbitrary: mp)
  case Nil
  then show ?case by simp
next
  case (Cons a as)
  show ?case
  proof (cases "infer_arg nd mp a")
    case (Inl e')
    with Cons.prems(1) have "e' = e" by simp
    with Inl Cons.prems(2) show ?thesis by (intro infer_arg_error [of nd mp a e]) auto
  next
    case (Inr mp')
    with Cons.prems(1) have "foldE (infer_arg nd) mp' as = Inl e" by simp
    with Cons.prems(2) show ?thesis by (intro Cons.IH [of mp']) auto
  qed
qed

subsection \<open>The third loop\<close>

lemma mapE_data_of:
  "mapE (data_of nd) as = Inr ds \<Longrightarrow> map Some ds = map (lookup_arg nd) as"
proof (induction as arbitrary: ds)
  case Nil
  then show ?case by simp
next
  case (Cons a as)
  then show ?case
    by (auto simp: data_of_def split: sum.splits option.splits)
qed

lemma emit_layer_Inr:
  assumes "emit_layer nd mp g e = Inr g'"
  obtains l where "g' = g @ [l]" and "lmodule l = snd e"
    and "num_outputs l = get_arity mp (snd e)"
    and "map Some (linputs l) = map (lookup_arg nd) (args (fst e))"
proof -
  from assms obtain inputs where i: "mapE (data_of nd) (args (fst e)) = Inr inputs"
    and g': "g' = add_layer g (snd e) inputs (get_arity mp (snd e))"
    by (auto simp: emit_layer_def split: sum.splits)
  show thesis
  proof (rule that)
    show "g' = g @ [\<lparr>lmodule = snd e, linputs = inputs, num_outputs = get_arity mp (snd e)\<rparr>]"
      using g' by (simp add: add_layer_def)
  qed (simp_all add: mapE_data_of [OF i])
qed

text \<open>One layer for every recorded module call, in the order of the dictionary.\<close>

lemma emit_layers:
  "foldE (emit_layer nd mp) g0 nm = Inr g \<Longrightarrow>
   \<exists>ls. g = g0 @ ls \<and> map lmodule ls = map snd nm \<and>
        map num_outputs ls = map (\<lambda>e. get_arity mp (snd e)) nm \<and>
        map (\<lambda>l. map Some (linputs l)) ls = map (\<lambda>e. map (lookup_arg nd) (args (fst e))) nm"
proof (induction nm arbitrary: g0)
  case Nil
  then show ?case by simp
next
  case (Cons e nm)
  from Cons.prems obtain g1 where step: "emit_layer nd mp g0 e = Inr g1"
    and rest: "foldE (emit_layer nd mp) g1 nm = Inr g"
    by (auto split: sum.splits)
  from step obtain l where l: "g1 = g0 @ [l]" "lmodule l = snd e"
    "num_outputs l = get_arity mp (snd e)"
    "map Some (linputs l) = map (lookup_arg nd) (args (fst e))"
    by (rule emit_layer_Inr)
  from Cons.IH [OF rest] obtain ls where ls: "g = g1 @ ls" "map lmodule ls = map snd nm"
    "map num_outputs ls = map (\<lambda>e. get_arity mp (snd e)) nm"
    "map (\<lambda>l. map Some (linputs l)) ls = map (\<lambda>e. map (lookup_arg nd) (args (fst e))) nm"
    by blast
  show ?case
  proof (intro exI conjI)
    show "g = g0 @ (l # ls)" using l(1) ls(1) by simp
  qed (simp_all add: l ls)
qed

lemma assemble_layers:
  assumes "assemble nd mp nm = Inr g"
  shows "map lmodule g = map snd nm"
    and "map num_outputs g = map (\<lambda>e. get_arity mp (snd e)) nm"
    and "map (\<lambda>l. map Some (linputs l)) g = map (\<lambda>e. map (lookup_arg nd) (args (fst e))) nm"
  using emit_layers [of nd mp "[]" nm g] assms by (auto simp: assemble_def)

lemma assemble_num_outputs:
  assumes "assemble nd mp nm = Inr g" and "l \<in> set g"
  shows "num_outputs l = get_arity mp (lmodule l)"
proof -
  from assms(2) obtain i where i: "i < length g" "g ! i = l" by (auto simp: in_set_conv_nth)
  from assemble_layers(1) [OF assms(1)] have len: "length g = length nm"
    by (metis length_map)
  from assemble_layers(1) [OF assms(1)] i len have "lmodule l = snd (nm ! i)"
    by (metis nth_map)
  moreover from assemble_layers(2) [OF assms(1)] i len
  have "num_outputs l = get_arity mp (snd (nm ! i))"
    by (metis nth_map)
  ultimately show ?thesis by simp
qed

lemma create_graph_Inr:
  assumes "create_graph T an = Inr g"
  obtains nd nm mp where "resolve_nodes T an (graph_nodes T) = Inr (nd, nm)"
    and "infer_arities nd nm = Inr mp" and "assemble nd mp nm = Inr g"
  using assms by (auto simp: create_graph_def split: sum.splits prod.splits)

text \<open>
  C6. An element selection whose first argument resolved to the whole output of a module
  \<open>m\<close> resolves to \<open>IndexedModuleOutput m index\<close>, the index being its second argument. When
  the first argument did not resolve to a whole module output (an external input, an
  indexed output, or nothing at all), the selection fails with \<open>SelectionOnNonModule\<close>, and
  so does \<open>create_graph\<close> on every trace in which the nodes before the selection resolve.
\<close>

theorem select_element_resolution:
  assumes "target n = OperatorGetitem" and "op n = ''call_function''"
    and "args n = a0 # a1 # rest"
  shows "(lookup_arg nd a0 = Some (WholeModuleOutput m) \<longrightarrow>
           resolve_node T an (nd, nm) n = Inr (nd(n \<mapsto> IndexedModuleOutput m a1), nm)) \<and>
         ((\<forall>m'. lookup_arg nd a0 \<noteq> Some (WholeModuleOutput m')) \<longrightarrow>
           resolve_node T an (nd, nm) n = Inl SelectionOnNonModule \<and>
           (graph_nodes T = pre @ n # post \<and> resolve_nodes T an pre = Inr (nd, nm) \<longrightarrow>
              create_graph T an = Inl SelectionOnNonModule))"
proof (intro conjI impI)
  assume "lookup_arg nd a0 = Some (WholeModuleOutput m)"
  with assms show "resolve_node T an (nd, nm) n = Inr (nd(n \<mapsto> IndexedModuleOutput m a1), nm)"
    by (simp add: resolve_node_def)
next
  assume "\<forall>m'. lookup_arg nd a0 \<noteq> Some (WholeModuleOutput m')"
  with assms show *: "resolve_node T an (nd, nm) n = Inl SelectionOnNonModule"
    by (auto simp: resolve_node_def split: option.splits data.splits)
  assume "graph_nodes T = pre @ n # post \<and> resolve_nodes T an pre = Inr (nd, nm)"
  with * show "create_graph T an = Inl SelectionOnNonModule"
    by (simp add: create_graph_first_error)
qed

theorem select_element_resolution_witness:
  "resolve_node (ex_tracer [ex_x, ex_a, ex_s0]) [''x'']
     ([ex_x \<mapsto> ExternalInput 0, ex_a \<mapsto> WholeModuleOutput 1], [(ex_a, 1)]) ex_s0 =
     Inr ([ex_x \<mapsto> ExternalInput 0, ex_a \<mapsto> WholeModuleOutput 1,
           ex_s0 \<mapsto> IndexedModuleOutput 1 (ArgInt 0)], [(ex_a, 1)]) \<and>
   create_graph (ex_tracer [ex_x, ex_sel_x]) [''x''] = Inl SelectionOnNonModule"
proof -
  have g: "target ex_s0 = OperatorGetitem" "op ex_s0 = ''call_function''"
    "args ex_s0 = ArgNode ex_a # ArgInt 0 # []"
    by (simp_all add: ex_s0_def)
  have w: "lookup_arg [ex_x \<mapsto> ExternalInput 0, ex_a \<mapsto> WholeModuleOutput 1] (ArgNode ex_a) =
             Some (WholeModuleOutput 1)"
    by simp
  have a: "resolve_node (ex_tracer [ex_x, ex_a, ex_s0]) [''x'']
     ([ex_x \<mapsto> ExternalInput 0, ex_a \<mapsto> WholeModuleOutput 1], [(ex_a, 1)]) ex_s0 =
     Inr ([ex_x \<mapsto> ExternalInput 0, ex_a \<mapsto> WholeModuleOutput 1,
           ex_s0 \<mapsto> IndexedModuleOutput 1 (ArgInt 0)], [(ex_a, 1)])"
    using select_element_resolution [OF g, where m = 1
        and nd = "[ex_x \<mapsto> ExternalInput 0, ex_a \<mapsto> WholeModuleOutput 1]"] w
    by blast
  have h: "target ex_sel_x = OperatorGetitem" "op ex_sel_x = ''call_function''"
    "args ex_sel_x = ArgNode ex_x # ArgInt 0 # []"
    by (simp_all add: ex_sel_x_def)
  have nw: "\<forall>m'. lookup_arg [ex_x \<mapsto> ExternalInput 0] (ArgNode ex_x) \<noteq> Some (WholeModuleOutput m')"
    by simp
  have pre: "graph_nodes (ex_tracer [ex_x, ex_sel_x]) = [ex_x] @ ex_sel_x # [] \<and>
      resolve_nodes (ex_tracer [ex_x, ex_sel_x]) [''x''] [ex_x] =
        Inr ([ex_x \<mapsto> ExternalInput 0], [])"
    by (simp add: ex_tracer_def resolve_nodes_def resolve_node_def ex_x_def)
  have b: "create_graph (ex_tracer [ex_x, ex_sel_x]) [''x''] = Inl SelectionOnNonModule"
    using select_element_resolution [OF h, where nd = "[ex_x \<mapsto> ExternalInput 0]"
        and T = "ex_tracer [ex_x, ex_sel_x]" and an = "[''x'']" and pre = "[ex_x]"
        and post = "[]" and nm = "[]"] nw pre
    by blast
  from a b show ?thesis by blast
qed

text \<open>
  C5. When no node of the trace is an element selection, every layer of the graph that
  \<open>create_graph\<close> returns has \<open>num_outputs = None\<close>.
\<close>

theorem no_selection_single_output:
  assumes "create_graph T an = Inr g"
    and "\<forall>n\<in>set (graph_nodes T). \<not> is_select_element n"
  shows "\<forall>l\<in>set g. num_outputs l = None"
proof
  fix l assume l: "l \<in> set g"
  from assms(1) obtain nd nm mp where
    pass1: "resolve_nodes T an (graph_nodes T) = Inr (nd, nm)" and
    pass2: "infer_arities nd nm = Inr mp" and pass3: "assemble nd mp nm = Inr g"
    by (rule create_graph_Inr)
  have "\<forall>n m x. nd n \<noteq> Some (IndexedModuleOutput m x)"
    using resolve_no_indexed [of T an Map.empty "[]" "graph_nodes T" nd nm] pass1 assms(2)
    by (simp add: resolve_nodes_def)
  then have noidx: "\<forall>a m x. lookup_arg nd a \<noteq> Some (IndexedModuleOutput m x)"
    by (metis lookup_arg.elims option.distinct(1))
  have "set (selected_indices nd (lmodule l) (module_call_args (graph_nodes T))) = {}"
    using noidx by (simp add: set_selected_indices)
  with infer_arities_char [OF pass1 pass2, of "lmodule l"]
  have "mp (lmodule l) = Some None \<or> mp (lmodule l) = None"
    by (cases "used_whole nd (lmodule l) (module_call_args (graph_nodes T))") simp_all
  then have "get_arity mp (lmodule l) = None" by (auto simp: get_arity_def)
  with assemble_num_outputs [OF pass3 l] show "num_outputs l = None" by simp
qed

theorem no_selection_single_output_witness:
  "create_graph (ex_tracer [ex_x, ex_a, ex_b_whole, ex_out ex_b_whole]) [''x''] =
     Inr [\<lparr>lmodule = 1, linputs = [ExternalInput 0], num_outputs = None\<rparr>,
          \<lparr>lmodule = 2, linputs = [WholeModuleOutput 1], num_outputs = None\<rparr>] \<and>
   num_outputs \<lparr>lmodule = 2, linputs = [WholeModuleOutput 1], num_outputs = None\<rparr> = None"
proof -
  have g: "create_graph (ex_tracer [ex_x, ex_a, ex_b_whole, ex_out ex_b_whole]) [''x''] =
     Inr [\<lparr>lmodule = 1, linputs = [ExternalInput 0], num_outputs = None\<rparr>,
          \<lparr>lmodule = 2, linputs = [WholeModuleOutput 1], num_outputs = None\<rparr>]"
    by (simp add: ex_defs run_defs)
  have ns: "\<forall>n\<in>set (graph_nodes (ex_tracer [ex_x, ex_a, ex_b_whole, ex_out ex_b_whole])).
      \<not> is_select_element n"
    by (simp add: ex_defs is_select_element_def)
  have "\<lparr>lmodule = 2, linputs = [WholeModuleOutput 1], num_outputs = None\<rparr> \<in>
      set [\<lparr>lmodule = 1, linputs = [ExternalInput 0], num_outputs = None\<rparr>,
           \<lparr>lmodule = 2, linputs = [WholeModuleOutput 1], num_outputs = None\<rparr>]"
    by simp
  with no_selection_single_output [OF g ns] g show ?thesis by blast
qed

subsection \<open>The scoped override of _call_trace\<close>

text \<open>
  C9. Whatever \<^verbatim>\<open>tracer.trace\<close> returns or raises, and whatever it leaves in the class, after
  \<^verbatim>\<open>_call_trace\<close> the two attributes of \<^verbatim>\<open>RemoteModule\<close> have the values they had before the
  call; the result or the error of the trace, which ran under the override, is passed on
  unchanged.
\<close>

theorem call_trace_restores:
  "named_modules (snd (call_trace nn_modules nn_children trace cls)) = named_modules cls \<and>
   named_children (snd (call_trace nn_modules nn_children trace cls)) = named_children cls \<and>
   fst (call_trace nn_modules nn_children trace cls) =
     fst (trace (cls\<lparr>named_modules := nn_modules, named_children := nn_children\<rparr>))"
  by (simp add: call_trace_def Let_def split: prod.splits)

theorem call_trace_restores_witness:
  "named_modules (snd (call_trace (10::nat) 20
      (\<lambda>c. (Inl ''tracing failed'' :: string + unit, c\<lparr>named_modules := 99\<rparr>))
      \<lparr>named_modules = 1, named_children = 2\<rparr>)) = 1 \<and>
   named_children (snd (call_trace (10::nat) 20
      (\<lambda>c. (Inl ''tracing failed'' :: string + unit, c\<lparr>named_modules := 99\<rparr>))
      \<lparr>named_modules = 1, named_children = 2\<rparr>)) = 2"
  using call_trace_restores [of "10::nat" 20
      "\<lambda>c. (Inl ''tracing failed'' :: string + unit, c\<lparr>named_modules := 99\<rparr>)"
      "\<lparr>named_modules = 1, named_children = 2\<rparr>"]
  by simp

end
